theory Spec2Isabelle
  imports Complex_Main "HOL-Library.AList" "HOL-Library.Multiset"
begin

section \<open>Data model\<close>

text \<open>
  The two notebooks (\<open>3_one_class_svm.ipynb\<close>, \<open>5_hdbscan.ipynb\<close>) are embedded as HOL
  functions. Every exception the Python can raise is a value of \<open>error\<close>; a function
  that can raise returns \<open>error + 'a\<close> with \<open>Inl\<close> for the exception.
\<close>

datatype error = ValueError | KeyError | IndexingError | FitError

text \<open>Hyperparameter values: numbers and the sentinel strings (\<open>'scale'\<close>, \<open>'rbf'\<close>, ...).\<close>

datatype pyval = PInt int | PFloat real | PStr string

text \<open>
  A Python \<open>dict\<close> keeps its keys in insertion order, and the grid enumeration depends on
  that order, so a dictionary is an association list with the keys in insertion order.
  \<open>d[k] = v\<close> is \<open>AList.update k v d\<close>: an existing key keeps its place, a new key is
  appended.
\<close>

type_synonym config = "(string \<times> pyval) list"

type_synonym param_grid = "(string \<times> pyval list) list"

definition dict :: "('k \<times> 'v) list \<Rightarrow> ('k \<times> 'v) list" where
  \<comment> \<open>\<open>dict(pairs)\<close>: insert the pairs from left to right.\<close>
  "dict pairs = foldl (\<lambda>d (k, v). AList.update k v d) [] pairs"

section \<open>Grid enumeration (both notebooks)\<close>

text \<open>
  \<^verbatim>\<open>keys, values = zip(*param_grid.items())\<close>
  \<^verbatim>\<open>iter_param = [dict(zip(keys, combo)) for combo in itertools.product(*values)]\<close>

  With no item \<open>zip()\<close> yields nothing and the unpacking into two names raises
  \<open>ValueError\<close>; with at least one item it yields the tuple of keys and the tuple of
  value lists.
\<close>

definition zip_star_items :: "param_grid \<Rightarrow> error + (string list \<times> pyval list list)" where
  "zip_star_items param_grid =
     (if param_grid = [] then Inl ValueError
      else Inr (map fst param_grid, map snd param_grid))"

fun itertools_product :: "'a list list \<Rightarrow> 'a list list" where
  "itertools_product [] = [[]]"
| "itertools_product (vs # vss) = [v # combo. v \<leftarrow> vs, combo \<leftarrow> itertools_product vss]"

definition expand_grid :: "param_grid \<Rightarrow> error + config list" where
  "expand_grid param_grid =
     (case zip_star_items param_grid of
        Inl e \<Rightarrow> Inl e
      | Inr (keys, values) \<Rightarrow>
          Inr (map (\<lambda>combo. dict (zip keys combo)) (itertools_product values)))"

section \<open>One-class SVM notebook: grid search\<close>

text \<open>
  The loop of \<open>grid_search\<close>. \<open>train\<close> stands for the call
  \<open>train_oneclass_svm(X_train, X_test, p)\<close>, which returns the F1 score or raises (in
  the notebook it is \<open>train_f1 OneClassSVM y_test X_train X_test\<close>, defined below).
  The state is \<open>(calls, best_f1, best_param)\<close>: \<open>calls\<close> lists the configurations the
  loop has passed to \<open>train\<close> so far. The loop has no \<open>try\<close>: an exception of
  \<open>train\<close> leaves the loop and the function.
\<close>

fun search_loop ::
  "(config \<Rightarrow> error + real) \<Rightarrow> config list \<Rightarrow> config list \<times> real \<times> config option
     \<Rightarrow> config list \<times> (error + real \<times> config option)" where
  "search_loop train [] (calls, best_f1, best_param) = (calls, Inr (best_f1, best_param))"
| "search_loop train (p # ps) (calls, best_f1, best_param) =
     (case train p of
        Inl e \<Rightarrow> (calls @ [p], Inl e)
      | Inr f1 \<Rightarrow>
          if f1 > best_f1 then search_loop train ps (calls @ [p], f1, Some p)
          else search_loop train ps (calls @ [p], best_f1, best_param))"

definition grid_search ::
  "(config \<Rightarrow> error + real) \<Rightarrow> param_grid \<Rightarrow> config list \<times> (error + config option)" where
  "grid_search train param_grid =
     (case expand_grid param_grid of
        Inl e \<Rightarrow> ([], Inl e)
      | Inr iter_param \<Rightarrow>
          (case search_loop train iter_param ([], 0, None) of
             (calls, Inl e) \<Rightarrow> (calls, Inl e)
           | (calls, Inr (best_f1, best_param)) \<Rightarrow> (calls, Inr best_param)))"

subsection \<open>An example grid\<close>

text \<open>\<^verbatim>\<open>param_grid = {"nu": [0.1, 0.5], "gamma": ["scale"]}\<close> and its two configurations.\<close>

definition example_grid :: param_grid where
  "example_grid = [(''nu'', [PFloat (1 / 10), PFloat (1 / 2)]), (''gamma'', [PStr ''scale''])]"

definition example_first :: config where
  "example_first = [(''nu'', PFloat (1 / 10)), (''gamma'', PStr ''scale'')]"

definition example_second :: config where
  "example_second = [(''nu'', PFloat (1 / 2)), (''gamma'', PStr ''scale'')]"

text \<open>
  A training function whose fit fails on the first configuration of the example grid
  and succeeds on every other configuration.
\<close>

definition fails_on_first :: "config \<Rightarrow> error + real" where
  "fails_on_first p = (if p = example_first then Inl FitError else Inr 1)"

section \<open>One-class SVM notebook: the train/test split\<close>

text \<open>
  \<open>X\<close> is the list of rows and \<open>y\<close> the list of labels, aligned by position (both
  are taken from the same data frame). \<open>X[y == c]\<close> keeps the rows whose label is \<open>c\<close>,
  in order. The mask is aligned with the rows of \<open>X\<close>: labels beyond the last row are
  ignored, and a row without a label makes pandas raise \<open>IndexingError\<close> (see
  \<open>ocsvm_train_test_split\<close>).
\<close>

definition mask_select :: "'a list \<Rightarrow> int list \<Rightarrow> int \<Rightarrow> 'a list" where
  "mask_select X y c = map fst (filter (\<lambda>(x, l). l = c) (zip X y))"

text \<open>
  \<open>train_test_split(a, b, test_size = 0.2, random_state = 42)\<close> of scikit-learn (an
  external library). It raises \<open>ValueError\<close> when the two arrays differ in length and
  when the training part would be empty. It draws \<open>n_test = ceil(0.2 * n)\<close> rows, which
  is \<open>(n + 4) div 5\<close>, takes a permutation of \<open>0..<n\<close> from the seeded generator, and
  uses its first \<open>n_test\<close> positions as test indices and the following \<open>n_train\<close> as
  train indices. The generator's permutation is the parameter \<open>permutation\<close>.
\<close>

definition train_test_split ::
  "(nat \<Rightarrow> nat list) \<Rightarrow> 'a list \<Rightarrow> 'b list
     \<Rightarrow> error + ('a list \<times> 'a list \<times> 'b list \<times> 'b list)" where
  "train_test_split permutation a b =
     (let n = length a in
      if length b \<noteq> n then Inl ValueError
      else
        let n_test = (n + 4) div 5;
            n_train = n - n_test
        in if n_train = 0 then Inl ValueError
           else
             let p = permutation n;
                 ind_test = take n_test p;
                 ind_train = take n_train (drop n_test p)
             in Inr (map ((!) a) ind_train, map ((!) a) ind_test,
                     map ((!) b) ind_train, map ((!) b) ind_test))"

text \<open>
  \<^verbatim>\<open>X_train = X[y == 0]\<close>
  \<^verbatim>\<open>X_test, y_test = X[y == 1].copy(), y[y == 1].copy()\<close>
  \<^verbatim>\<open>X_train, X_test_normal, y_train, y_test_normal = train_test_split(X_train, y[y == normal_class], ...)\<close>
  \<^verbatim>\<open>X_test = pd.concat([X_test, X_test_normal]); y_test = pd.concat([y_test, y_test_normal])\<close>

  The row selections compare with the literals 0 and 1; only the label selection handed to
  \<open>train_test_split\<close> uses \<open>normal_class\<close>.
\<close>

definition ocsvm_train_test_split ::
  "(nat \<Rightarrow> nat list) \<Rightarrow> 'a list \<Rightarrow> int list \<Rightarrow> int
     \<Rightarrow> error + ('a list \<times> 'a list \<times> int list \<times> int list)" where
  "ocsvm_train_test_split permutation X y normal_class =
     (if length y < length X then Inl IndexingError
      else
        let X_train = mask_select X y 0;
            X_test = mask_select X y 1;
            y_test = mask_select y y 1
        in case train_test_split permutation X_train (mask_select y y normal_class) of
             Inl e \<Rightarrow> Inl e
           | Inr (X_train', X_test_normal, y_train, y_test_normal) \<Rightarrow>
               Inr (X_train', X_test @ X_test_normal, y_train, y_test @ y_test_normal))"

section \<open>One-class SVM notebook: scaling\<close>

type_synonym matrix = "real list list"

text \<open>
  \<open>StandardScaler\<close> of scikit-learn (an external library): \<open>fit\<close> stores the mean and the
  standard deviation of every column (\<open>fitted_mean\<close>, \<open>fitted_scale\<close>; a zero
  deviation is replaced by 1); \<open>transform\<close> subtracts the stored means, divides by the
  stored deviations and leaves the stored parameters alone. Both raise \<open>ValueError\<close> on
  an array with no row; \<open>transform\<close> raises it on rows whose width differs from the
  fitted one.
\<close>

record scaler =
  fitted_mean :: "real list"
  fitted_scale :: "real list"

definition column :: "matrix \<Rightarrow> nat \<Rightarrow> real list" where
  "column X j = map (\<lambda>row. row ! j) X"

definition mean :: "real list \<Rightarrow> real" where
  "mean xs = sum_list xs / real (length xs)"

definition variance :: "real list \<Rightarrow> real" where
  "variance xs = mean (map (\<lambda>x. (x - mean xs)\<^sup>2) xs)"

definition scaler_fit :: "matrix \<Rightarrow> error + scaler" where
  "scaler_fit X =
     (if X = [] then Inl ValueError
      else
        let n_features = length (hd X) in
        if \<not> list_all (\<lambda>row. length row = n_features) X then Inl ValueError
        else Inr \<lparr>fitted_mean = map (\<lambda>j. mean (column X j)) [0..<n_features],
                  fitted_scale = map (\<lambda>j. let v = variance (column X j)
                                      in if v = 0 then 1 else sqrt v) [0..<n_features]\<rparr>)"

definition scale_row :: "scaler \<Rightarrow> real list \<Rightarrow> real list" where
  "scale_row sc row = map (\<lambda>(x, m, s). (x - m) / s) (zip row (zip (fitted_mean sc) (fitted_scale sc)))"

definition scaler_transform :: "scaler \<Rightarrow> matrix \<Rightarrow> error + matrix" where
  "scaler_transform sc X =
     (if X = [] \<or> \<not> list_all (\<lambda>row. length row = length (fitted_mean sc)) X then Inl ValueError
      else Inr (map (scale_row sc) X))"

definition scaler_fit_transform :: "matrix \<Rightarrow> error + (scaler \<times> matrix)" where
  "scaler_fit_transform X =
     (case scaler_fit X of
        Inl e \<Rightarrow> Inl e
      | Inr sc \<Rightarrow> (case scaler_transform sc X of Inl e \<Rightarrow> Inl e | Inr X' \<Rightarrow> Inr (sc, X')))"

text \<open>
  The scaling block of \<open>train_oneclass_svm\<close>:
  \<^verbatim>\<open>scaler = StandardScaler()\<close>
  \<^verbatim>\<open>X_train_scaled = scaler.fit_transform(X_train)\<close>
  \<^verbatim>\<open>X_test_scaled = scaler.transform(X_test)\<close>
  It yields the scaler as it stands after both calls and the two scaled matrices.
\<close>

definition scale_inputs :: "matrix \<Rightarrow> matrix \<Rightarrow> error + (scaler \<times> matrix \<times> matrix)" where
  "scale_inputs X_train X_test =
     (case scaler_fit_transform X_train of
        Inl e \<Rightarrow> Inl e
      | Inr (scaler, X_train_scaled) \<Rightarrow>
          (case scaler_transform scaler X_test of
             Inl e \<Rightarrow> Inl e
           | Inr X_test_scaled \<Rightarrow> Inr (scaler, X_train_scaled, X_test_scaled)))"

section \<open>One-class SVM notebook: evaluation\<close>

text \<open>
  The counts of the confusion matrix are numpy integers: their true division does not
  raise on a zero divisor, it yields \<open>nan\<close> for \<open>0 / 0\<close> and \<open>inf\<close> for a positive
  numerator, with a warning.
\<close>

datatype npfloat = Finite real | PosInf | NaN

definition np_true_divide :: "nat \<Rightarrow> nat \<Rightarrow> npfloat" where
  "np_true_divide a b =
     (if b \<noteq> 0 then Finite (real a / real b) else if a = 0 then NaN else PosInf)"

fun np_times :: "npfloat \<Rightarrow> real \<Rightarrow> npfloat" where
  "np_times (Finite x) c = Finite (x * c)"
| "np_times PosInf c = PosInf"
| "np_times NaN c = NaN"

definition count_pairs :: "int list \<Rightarrow> int list \<Rightarrow> int \<Rightarrow> int \<Rightarrow> nat" where
  "count_pairs y_true y_pred t p = length (filter (\<lambda>(a, b). a = t \<and> b = p) (zip y_true y_pred))"

text \<open>
  \<open>confusion_matrix(y_true, y_pred)\<close> of scikit-learn: one row and one column for every
  label that occurs in either array, in sorted order; \<open>ValueError\<close> when the lengths
  differ or no label occurs.
\<close>

definition confusion_matrix :: "int list \<Rightarrow> int list \<Rightarrow> error + nat list list" where
  "confusion_matrix y_true y_pred =
     (let labels = sort (remdups (y_true @ y_pred)) in
      if length y_true \<noteq> length y_pred \<or> labels = [] then Inl ValueError
      else Inr (map (\<lambda>t. map (\<lambda>p. count_pairs y_true y_pred t p) labels) labels))"

text \<open>
  \<open>precision_score\<close>, \<open>recall_score\<close> and \<open>f1_score\<close> of scikit-learn, called with their
  defaults (binary average, positive label 1, \<open>zero_division = "warn"\<close>): a score whose
  denominator is zero is returned as 0.0 with a warning. The functions raise
  \<open>ValueError\<close> when more than two labels are present (a multiclass target) and when two
  labels are present and 1 is not among them.
\<close>

definition binary_counts :: "int list \<Rightarrow> int list \<Rightarrow> error + (nat \<times> nat \<times> nat)" where
  "binary_counts y_true y_pred =
     (let labels = remdups (y_true @ y_pred) in
      if length y_true \<noteq> length y_pred \<or> 2 < length labels
           \<or> (1 \<notin> set labels \<and> 2 \<le> length labels)
      then Inl ValueError
      else Inr (length (filter (\<lambda>(a, b). a = 1 \<and> b = 1) (zip y_true y_pred)),
                length (filter (\<lambda>(a, b). a \<noteq> 1 \<and> b = 1) (zip y_true y_pred)),
                length (filter (\<lambda>(a, b). a = 1 \<and> b \<noteq> 1) (zip y_true y_pred))))"

definition zero_division :: "real \<Rightarrow> real \<Rightarrow> real" where
  "zero_division a b = (if b = 0 then 0 else a / b)"

definition precision_score :: "int list \<Rightarrow> int list \<Rightarrow> error + real" where
  "precision_score y_true y_pred =
     (case binary_counts y_true y_pred of
        Inl e \<Rightarrow> Inl e
      | Inr (tp, fp, fn) \<Rightarrow> Inr (zero_division (real tp) (real (tp + fp))))"

definition recall_score :: "int list \<Rightarrow> int list \<Rightarrow> error + real" where
  "recall_score y_true y_pred =
     (case binary_counts y_true y_pred of
        Inl e \<Rightarrow> Inl e
      | Inr (tp, fp, fn) \<Rightarrow> Inr (zero_division (real tp) (real (tp + fn))))"

definition f1_score :: "int list \<Rightarrow> int list \<Rightarrow> error + real" where
  "f1_score y_true y_pred =
     (case binary_counts y_true y_pred of
        Inl e \<Rightarrow> Inl e
      | Inr (tp, fp, fn) \<Rightarrow>
          let p = zero_division (real tp) (real (tp + fp));
              r = zero_division (real tp) (real (tp + fn))
          in Inr (zero_division (2 * p * r) (p + r)))"

text \<open>
  What \<open>train_oneclass_svm\<close> reports for one configuration: the four percentage rates
  and the three scores go to the log, \<open>f1\<close> is also the return value.
\<close>

record svm_report =
  true_positive_rate :: npfloat
  false_positive_rate :: npfloat
  true_negative_rate :: npfloat
  false_negative_rate :: npfloat
  precision :: real
  recall :: real
  f1 :: real

text \<open>
  The evaluation block of \<open>train_oneclass_svm\<close>.
  \<^verbatim>\<open>TN, FP, FN, TP = conf_matrix.ravel()\<close> raises \<open>ValueError\<close> unless the matrix has
  exactly four cells.
\<close>

definition evaluate :: "int list \<Rightarrow> int list \<Rightarrow> error + svm_report" where
  "evaluate y_test predictions =
     (case confusion_matrix y_test predictions of
        Inl e \<Rightarrow> Inl e
      | Inr conf_matrix \<Rightarrow>
          (case concat conf_matrix of
             [TN, FP, FN, TP] \<Rightarrow>
               (case precision_score y_test predictions of
                  Inl e \<Rightarrow> Inl e
                | Inr precision' \<Rightarrow>
                    (case recall_score y_test predictions of
                       Inl e \<Rightarrow> Inl e
                     | Inr recall' \<Rightarrow>
                         (case f1_score y_test predictions of
                            Inl e \<Rightarrow> Inl e
                          | Inr f1' \<Rightarrow>
                              Inr \<lparr>true_positive_rate = np_times (np_true_divide TP (TP + FN)) 100,
                                   false_positive_rate = np_times (np_true_divide FP (FP + TN)) 100,
                                   true_negative_rate = np_times (np_true_divide TN (TN + FP)) 100,
                                   false_negative_rate = np_times (np_true_divide FN (FN + TP)) 100,
                                   precision = precision', recall = recall', f1 = f1'\<rparr>)))
           | _ \<Rightarrow> Inl ValueError))"

text \<open>
  \<open>train_oneclass_svm(X_train, X_test, params)\<close>. The estimator is external:
  \<open>OneClassSVM params X_train_scaled X_test_scaled\<close> stands for constructing it from
  \<open>params\<close>, fitting it on the scaled training rows and predicting the scaled test rows
  (+1 inlier, -1 outlier), or its failure. \<open>y_test\<close> is the notebook's global. The
  wall-clock training time that the function logs is not modelled.
\<close>

definition train_oneclass_svm ::
  "(config \<Rightarrow> matrix \<Rightarrow> matrix \<Rightarrow> error + int list) \<Rightarrow> int list \<Rightarrow> matrix \<Rightarrow> matrix \<Rightarrow> config
     \<Rightarrow> error + svm_report" where
  "train_oneclass_svm OneClassSVM y_test X_train X_test params =
     (case scale_inputs X_train X_test of
        Inl e \<Rightarrow> Inl e
      | Inr (scaler, X_train_scaled, X_test_scaled) \<Rightarrow>
          (case OneClassSVM params X_train_scaled X_test_scaled of
             Inl e \<Rightarrow> Inl e
           | Inr raw \<Rightarrow>
               let predictions = map (\<lambda>v. if v = - 1 then 1 else 0) raw
               in evaluate y_test predictions))"

definition train_f1 ::
  "(config \<Rightarrow> matrix \<Rightarrow> matrix \<Rightarrow> error + int list) \<Rightarrow> int list \<Rightarrow> matrix \<Rightarrow> matrix \<Rightarrow> config
     \<Rightarrow> error + real" where
  \<comment> \<open>The value \<open>grid_search\<close> receives from \<open>train_oneclass_svm\<close>.\<close>
  "train_f1 OneClassSVM y_test X_train X_test params =
     (case train_oneclass_svm OneClassSVM y_test X_train X_test params of
        Inl e \<Rightarrow> Inl e
      | Inr report \<Rightarrow> Inr (f1 report))"

section \<open>HDBSCAN notebook\<close>

text \<open>
  The notebook's functions return nothing of interest besides the cluster labels; what
  they compute goes to the log. A log line is modelled by the values it prints (the
  wall-clock training time of the \<open>Trained\<close> line is not modelled).
\<close>

record cluster_report =
  report_parameters :: config
  report_clusters :: nat
  report_noise_pct :: real
  report_fraud_in_cluster :: int
  report_fraud_in_noise :: nat

datatype log_line =
    Initiated nat
  | Search nat nat
  | Trained config
  | Report cluster_report

text \<open>
  \<open>hdbscan_clustering(X, params, logging)\<close>.
  \<^verbatim>\<open>params["n_jobs"] = -1\<close> writes into the dictionary the caller passed, so the
  function yields the dictionary as the caller finds it afterwards, the lines it logs,
  and the labels or the estimator's failure. \<open>HDBSCAN params X\<close> stands for the external
  estimator: constructing it from \<open>params\<close> and \<open>fit_predict(X)\<close>.
\<close>

definition hdbscan_clustering ::
  "(config \<Rightarrow> 'x \<Rightarrow> error + int list) \<Rightarrow> 'x \<Rightarrow> config \<Rightarrow> bool
     \<Rightarrow> config \<times> log_line list \<times> (error + int list)" where
  "hdbscan_clustering HDBSCAN X params logging =
     (let params' = AList.update ''n_jobs'' (PInt (- 1)) params in
      case HDBSCAN params' X of
        Inl e \<Rightarrow> (params', [], Inl e)
      | Inr cluster_labels \<Rightarrow>
          (params', if logging then [Trained params'] else [], Inr cluster_labels))"

text \<open>
  \<^verbatim>\<open>eval_df.groupby('Cluster')['Class'].value_counts().unstack(fill_value=0)\<close>:
  one row for every cluster id that occurs and one column for every class that occurs,
  both sorted, each cell the number of rows with that cluster id and class.
\<close>

definition crosstab :: "int list \<Rightarrow> int list \<Rightarrow> (int \<times> (int \<times> nat) list) list" where
  "crosstab clusters classes =
     (let index = sort (remdups clusters);
          columns = sort (remdups classes)
      in map (\<lambda>c. (c, map (\<lambda>k. (k, count_pairs clusters classes c k)) columns)) index)"

definition loc :: "(int \<times> (int \<times> nat) list) list \<Rightarrow> int \<Rightarrow> int \<Rightarrow> error + nat" where
  \<comment> \<open>\<open>distribution.loc[r, c]\<close>: \<open>KeyError\<close> for a row or column label that is absent.\<close>
  "loc distribution r c =
     (case map_of distribution r of
        None \<Rightarrow> Inl KeyError
      | Some row \<Rightarrow> (case map_of row c of None \<Rightarrow> Inl KeyError | Some n \<Rightarrow> Inr n))"

definition rint :: "real \<Rightarrow> int" where
  \<comment> \<open>Rounding to the nearest integer, a tie to the even one, as numpy rounds.\<close>
  "rint x =
     (let f = \<lfloor>x\<rfloor>; d = x - of_int f
      in if d < 1 / 2 then f else if 1 / 2 < d then f + 1 else if even f then f else f + 1)"

text \<open>
  \<open>.round(2)\<close>. The percentage is rounded here as an exact number; the code rounds the
  float64 nearest to it, so where the exact percentage ends in a 5 in the third decimal
  (23 noise rows of 160: 14.375) the logged value can differ from this one in the last
  digit. No statement below depends on such a value.
\<close>

definition round2 :: "real \<Rightarrow> real" where
  "round2 x = of_int (rint (x * 100)) / 100"

text \<open>
  \<open>analyze_clusters(params, label_df, cluster_labels)\<close>. Assigning the \<open>Cluster\<close> column
  raises \<open>ValueError\<close> when the labels do not fit the frame's length.
  \<^verbatim>\<open>cluster_count = eval_df["Cluster"].nunique()\<close>
  \<^verbatim>\<open>total_noise_count = (eval_df["Cluster"] == -1).sum()\<close>
  \<^verbatim>\<open>total_fraud_count = (eval_df["Class"] == 1).sum()\<close>
  \<^verbatim>\<open>noise_fraud_count = distribution.loc[-1, 1]\<close>
  \<^verbatim>\<open>noise_pct = ((total_noise_count / eval_df.shape[0]) * 100).round(2)\<close>
\<close>

definition analyze_clusters :: "config \<Rightarrow> int list \<Rightarrow> int list \<Rightarrow> error + cluster_report" where
  "analyze_clusters params label_df cluster_labels =
     (if length cluster_labels \<noteq> length label_df then Inl ValueError
      else
        let distribution = crosstab cluster_labels label_df;
            cluster_count = length (remdups cluster_labels);
            total_noise_count = length (filter (\<lambda>c. c = - 1) cluster_labels);
            total_fraud_count = length (filter (\<lambda>k. k = 1) label_df)
        in case loc distribution (- 1) 1 of
             Inl e \<Rightarrow> Inl e
           | Inr noise_fraud_count \<Rightarrow>
               Inr \<lparr>report_parameters = params,
                    report_clusters = cluster_count,
                    report_noise_pct =
                      round2 (real total_noise_count / real (length label_df) * 100),
                    report_fraud_in_cluster = int total_fraud_count - int noise_fraud_count,
                    report_fraud_in_noise = noise_fraud_count\<rparr>)"

text \<open>
  The loop of \<open>cluster_grid_search\<close>: it logs the step, clusters with the configuration
  (which \<open>hdbscan_clustering\<close> updates in place) and analyses the labels. It has no
  \<open>try\<close>: an exception ends the loop.
\<close>

fun cluster_loop ::
  "(config \<Rightarrow> 'x \<Rightarrow> error + int list) \<Rightarrow> 'x \<Rightarrow> int list \<Rightarrow> nat \<Rightarrow> config list \<Rightarrow> nat
     \<Rightarrow> log_line list \<Rightarrow> log_line list \<times> (error + unit)" where
  "cluster_loop HDBSCAN X label_df combinations [] counter logged = (logged, Inr ())"
| "cluster_loop HDBSCAN X label_df combinations (p # ps) counter logged =
     (case hdbscan_clustering HDBSCAN X p False of
        (p', lines, Inl e) \<Rightarrow> (logged @ [Search counter combinations] @ lines, Inl e)
      | (p', lines, Inr cluster_labels) \<Rightarrow>
          (case analyze_clusters p' label_df cluster_labels of
             Inl e \<Rightarrow> (logged @ [Search counter combinations] @ lines, Inl e)
           | Inr report \<Rightarrow>
               cluster_loop HDBSCAN X label_df combinations ps (counter + 1)
                 (logged @ [Search counter combinations] @ lines @ [Report report])))"

definition cluster_grid_search ::
  "(config \<Rightarrow> 'x \<Rightarrow> error + int list) \<Rightarrow> 'x \<Rightarrow> param_grid \<Rightarrow> int list
     \<Rightarrow> log_line list \<times> (error + unit)" where
  "cluster_grid_search HDBSCAN X param_grid label_df =
     (case expand_grid param_grid of
        Inl e \<Rightarrow> ([], Inl e)
      | Inr iter_param \<Rightarrow>
          cluster_loop HDBSCAN X label_df (length iter_param) iter_param 1
            [Initiated (length iter_param)])"

text \<open>An estimator that puts every row into cluster 0, for the concrete runs below.\<close>

definition one_cluster :: "config \<Rightarrow> real list list \<Rightarrow> error + int list" where
  "one_cluster params X = Inr (map (\<lambda>row. 0) X)"

text \<open>
  The generator that leaves the rows in their order and the one that reverses them, for
  the concrete runs below.
\<close>

definition identity_permutation :: "nat \<Rightarrow> nat list" where
  "identity_permutation n = [0..<n]"

definition reversed_permutation :: "nat \<Rightarrow> nat list" where
  "reversed_permutation n = rev [0..<n]"

text \<open>Training functions with fixed scores, for the concrete runs below.\<close>

definition zero_scores :: "config \<Rightarrow> error + real" where
  "zero_scores p = Inr 0"

definition half_scores :: "config \<Rightarrow> error + real" where
  "half_scores p = Inr (1 / 2)"

definition second_is_better :: "config \<Rightarrow> error + real" where
  "second_is_better p = (if p = example_second then Inr (3 / 4) else Inr (1 / 4))"

section \<open>Best-configuration selection\<close>

lemma expand_example_grid:
  "expand_grid example_grid = Inr [example_first, example_second]"
  by (simp add: expand_grid_def zip_star_items_def dict_def example_grid_def
      example_first_def example_second_def)

lemma example_grid_nonempty: "example_grid \<noteq> []"
  by (simp add: example_grid_def)

lemma example_configs_differ: "example_first \<noteq> example_second"
  by (simp add: example_first_def example_second_def)

lemma expand_grid_nonempty:
  assumes "param_grid \<noteq> []"
  shows "\<exists>iter_param. expand_grid param_grid = Inr iter_param"
  using assms by (simp add: expand_grid_def zip_star_items_def)

lemma search_loop_nonpositive:
  assumes "\<forall>p \<in> set ps. \<exists>f1. train p = Inr f1 \<and> f1 \<le> b"
  shows "search_loop train ps (calls, b, bp) = (calls @ ps, Inr (b, bp))"
  using assms
proof (induction ps arbitrary: calls)
  case Nil
  then show ?case by simp
next
  case (Cons p ps)
  from Cons.prems obtain f1 where f1: "train p = Inr f1" "f1 \<le> b"
    by auto
  from Cons.prems have rest: "\<forall>q \<in> set ps. \<exists>f1. train q = Inr f1 \<and> f1 \<le> b"
    by simp
  show ?case
    using f1 Cons.IH [OF rest, of "calls @ [p]"] by simp
qed

lemma search_loop_scores_nonpositive:
  assumes "\<forall>p \<in> set ps. train p = Inr (score p)" and "\<forall>p \<in> set ps. score p \<le> b"
  shows "search_loop train ps (calls, b, bp) = (calls @ ps, Inr (b, bp))"
  using assms by (intro search_loop_nonpositive) auto

lemma search_loop_first_positive_maximum:
  assumes "\<forall>p \<in> set ps. train p = Inr (score p)"
    and "i < length ps" and "b < score (ps ! i)"
    and "\<forall>j<length ps. score (ps ! j) \<le> score (ps ! i)"
    and "\<forall>j<i. score (ps ! j) < score (ps ! i)"
  shows "search_loop train ps (calls, b, bp) = (calls @ ps, Inr (score (ps ! i), Some (ps ! i)))"
  using assms
proof (induction ps arbitrary: i calls b bp)
  case Nil
  then show ?case by simp
next
  case (Cons p ps)
  from Cons.prems(1) have p: "train p = Inr (score p)"
    and rest: "\<forall>q \<in> set ps. train q = Inr (score q)"
    by simp_all
  show ?case
  proof (cases i)
    case 0
    with Cons.prems(3) have better: "b < score p" by simp
    have "\<forall>q \<in> set ps. \<exists>f1. train q = Inr f1 \<and> f1 \<le> score p"
    proof
      fix q assume q: "q \<in> set ps"
      then obtain j where j: "j < length ps" "ps ! j = q"
        by (auto simp: in_set_conv_nth)
      with Cons.prems(4) 0 have "score ((p # ps) ! Suc j) \<le> score p"
        by (metis length_Cons not_less_eq nth_Cons_0)
      with j rest q show "\<exists>f1. train q = Inr f1 \<and> f1 \<le> score p"
        by simp
    qed
    from search_loop_nonpositive [OF this, of "calls @ [p]" "Some p"] p better 0
    show ?thesis by simp
  next
    case (Suc k)
    with Cons.prems have k: "k < length ps"
      and low: "score p < score (ps ! k)"
      by auto
    have le: "\<forall>j<length ps. score (ps ! j) \<le> score (ps ! k)"
    proof (intro allI impI)
      fix j assume "j < length ps"
      then have "Suc j < length (p # ps)" by simp
      with Cons.prems(4) have "score ((p # ps) ! Suc j) \<le> score ((p # ps) ! i)" by blast
      with Suc show "score (ps ! j) \<le> score (ps ! k)" by simp
    qed
    have lt: "\<forall>j<k. score (ps ! j) < score (ps ! k)"
    proof (intro allI impI)
      fix j assume "j < k"
      then have "Suc j < i" using Suc by simp
      with Cons.prems(5) have "score ((p # ps) ! Suc j) < score ((p # ps) ! i)" by blast
      with Suc show "score (ps ! j) < score (ps ! k)" by simp
    qed
    from Cons.prems(3) Suc have b: "b < score (ps ! k)" by simp
    show ?thesis
    proof (cases "b < score p")
      case True
      from Cons.IH [OF rest k low le lt, of "calls @ [p]" "Some p"] p True Suc
      show ?thesis by simp
    next
      case False
      from Cons.IH [OF rest k b le lt, of "calls @ [p]" bp] p False Suc
      show ?thesis by simp
    qed
  qed
qed

lemma grid_search_all_scored:
  assumes e: "expand_grid param_grid = Inr iter_param"
    and ok: "\<forall>p \<in> set iter_param. train p = Inr (score p)"
  shows "(\<forall>p \<in> set iter_param. score p \<le> 0)
           \<longrightarrow> grid_search train param_grid = (iter_param, Inr None)"
    and "\<forall>i<length iter_param.
           0 < score (iter_param ! i)
           \<and> (\<forall>j<length iter_param. score (iter_param ! j) \<le> score (iter_param ! i))
           \<and> (\<forall>j<i. score (iter_param ! j) < score (iter_param ! i))
           \<longrightarrow> grid_search train param_grid = (iter_param, Inr (Some (iter_param ! i)))"
proof -
  show "(\<forall>p \<in> set iter_param. score p \<le> 0)
           \<longrightarrow> grid_search train param_grid = (iter_param, Inr None)"
  proof
    assume "\<forall>p \<in> set iter_param. score p \<le> 0"
    from search_loop_scores_nonpositive [OF ok this, of "[]" None] e
    show "grid_search train param_grid = (iter_param, Inr None)"
      by (simp add: grid_search_def)
  qed
  show "\<forall>i<length iter_param.
           0 < score (iter_param ! i)
           \<and> (\<forall>j<length iter_param. score (iter_param ! j) \<le> score (iter_param ! i))
           \<and> (\<forall>j<i. score (iter_param ! j) < score (iter_param ! i))
           \<longrightarrow> grid_search train param_grid = (iter_param, Inr (Some (iter_param ! i)))"
  proof (intro allI impI)
    fix i
    assume i: "i < length iter_param"
      and m: "0 < score (iter_param ! i)
           \<and> (\<forall>j<length iter_param. score (iter_param ! j) \<le> score (iter_param ! i))
           \<and> (\<forall>j<i. score (iter_param ! j) < score (iter_param ! i))"
    from m have "0 < score (iter_param ! i)"
      and "\<forall>j<length iter_param. score (iter_param ! j) \<le> score (iter_param ! i)"
      and "\<forall>j<i. score (iter_param ! j) < score (iter_param ! i)"
      by blast+
    from search_loop_first_positive_maximum [OF ok i this, of "[]" None] e
    show "grid_search train param_grid = (iter_param, Inr (Some (iter_param ! i)))"
      by (simp add: grid_search_def)
  qed
qed




text \<open>
  C5. As stated for every pair of configurations with equal F1 the claim does not hold:
  when the two configurations of the example grid both score 0 they are tied for the best
  score, and the first one is not retained; the search returns \<open>None\<close>.
\<close>

theorem grid_search_tie_at_zero_counterexample:
  "zero_scores example_first = zero_scores example_second
   \<and> grid_search zero_scores example_grid = ([example_first, example_second], Inr None)"
  using expand_example_grid
  by (simp add: grid_search_def zero_scores_def)

text \<open>
  C5, amended. In a run over a non-empty grid in which every fit succeeds, the best
  configuration is replaced only by an F1 strictly greater than the running best, which
  starts at 0. So when some configuration scores above 0 the run returns the configuration
  at the first position of the enumeration that reaches the maximal F1 (every
  configuration scores at most as much, every earlier one strictly less): of the
  configurations tied at the maximal F1 the first is retained, and a later, strictly better
  configuration replaces an earlier one. When no configuration scores above 0 none is
  retained and the run returns \<open>None\<close>.
\<close>

theorem grid_search_selects_first_positive_maximum:
  assumes "param_grid \<noteq> []"
  shows "\<exists>iter_param. expand_grid param_grid = Inr iter_param
     \<and> ((\<forall>p \<in> set iter_param. train p = Inr (score p)) \<longrightarrow>
          ((\<forall>p \<in> set iter_param. score p \<le> 0)
             \<longrightarrow> grid_search train param_grid = (iter_param, Inr None))
        \<and> (\<forall>i<length iter_param.
              0 < score (iter_param ! i)
              \<and> (\<forall>j<length iter_param. score (iter_param ! j) \<le> score (iter_param ! i))
              \<and> (\<forall>j<i. score (iter_param ! j) < score (iter_param ! i))
              \<longrightarrow> grid_search train param_grid = (iter_param, Inr (Some (iter_param ! i)))))"
proof -
  from expand_grid_nonempty [OF assms]
  obtain iter_param where e: "expand_grid param_grid = Inr iter_param" ..
  show ?thesis
  proof (intro exI [of _ iter_param] conjI impI)
    show "expand_grid param_grid = Inr iter_param" by (rule e)
  next
    assume ok: "\<forall>p \<in> set iter_param. train p = Inr (score p)"
    assume "\<forall>p \<in> set iter_param. score p \<le> 0"
    with grid_search_all_scored(1) [OF e ok]
    show "grid_search train param_grid = (iter_param, Inr None)" by blast
  next
    assume ok: "\<forall>p \<in> set iter_param. train p = Inr (score p)"
    from grid_search_all_scored(2) [OF e ok]
    show "\<forall>i<length iter_param.
              0 < score (iter_param ! i)
              \<and> (\<forall>j<length iter_param. score (iter_param ! j) \<le> score (iter_param ! i))
              \<and> (\<forall>j<i. score (iter_param ! j) < score (iter_param ! i))
              \<longrightarrow> grid_search train param_grid = (iter_param, Inr (Some (iter_param ! i)))" .
  qed
qed

theorem grid_search_selects_first_positive_maximum_witness:
  "example_grid \<noteq> []
   \<and> half_scores example_first = half_scores example_second
   \<and> grid_search half_scores example_grid
       = ([example_first, example_second], Inr (Some example_first))
   \<and> grid_search second_is_better example_grid
       = ([example_first, example_second], Inr (Some example_second))
   \<and> grid_search zero_scores example_grid = ([example_first, example_second], Inr None)"
proof -
  have tie: "grid_search half_scores example_grid
       = ([example_first, example_second], Inr (Some example_first))"
  proof -
    from grid_search_selects_first_positive_maximum
      [OF example_grid_nonempty, of half_scores "\<lambda>p. 1 / 2"] expand_example_grid
    have "\<forall>i<length [example_first, example_second].
              0 < (1 / 2 :: real)
              \<and> (\<forall>j<length [example_first, example_second]. (1 / 2 :: real) \<le> 1 / 2)
              \<and> (\<forall>j<i. (1 / 2 :: real) < 1 / 2)
              \<longrightarrow> grid_search half_scores example_grid
                   = ([example_first, example_second], Inr (Some ([example_first, example_second] ! i)))"
      by (auto simp: half_scores_def)
    from this [rule_format, of 0] show ?thesis by simp
  qed
  have later: "grid_search second_is_better example_grid
       = ([example_first, example_second], Inr (Some example_second))"
  proof -
    define score :: "config \<Rightarrow> real" where "score = (\<lambda>p. if p = example_second then 3 / 4 else 1 / 4)"
    have sc: "score example_first = 1 / 4" "score example_second = 3 / 4"
      using example_configs_differ by (simp_all add: score_def)
    have ok: "\<forall>p \<in> set [example_first, example_second]. second_is_better p = Inr (score p)"
      by (simp add: second_is_better_def score_def)
    from grid_search_selects_first_positive_maximum
      [OF example_grid_nonempty, of second_is_better score] expand_example_grid ok
    have "\<forall>i<length [example_first, example_second].
              0 < score ([example_first, example_second] ! i)
              \<and> (\<forall>j<length [example_first, example_second].
                    score ([example_first, example_second] ! j) \<le> score ([example_first, example_second] ! i))
              \<and> (\<forall>j<i. score ([example_first, example_second] ! j) < score ([example_first, example_second] ! i))
              \<longrightarrow> grid_search second_is_better example_grid
                   = ([example_first, example_second], Inr (Some ([example_first, example_second] ! i)))"
      by auto
    from this [rule_format, of 1] sc show ?thesis
      by (simp add: nth_Cons' less_Suc_eq)
  qed
  have none: "grid_search zero_scores example_grid = ([example_first, example_second], Inr None)"
  proof -
    from grid_search_selects_first_positive_maximum
      [OF example_grid_nonempty, of zero_scores "\<lambda>p. 0"] expand_example_grid
    show ?thesis by (auto simp: zero_scores_def)
  qed
  from example_grid_nonempty tie later none show ?thesis
    by (simp add: half_scores_def)
qed

section \<open>Failure of a configuration during the grid search\<close>

lemma search_loop_all_succeed:
  assumes "\<forall>p \<in> set ps. \<exists>x. train p = Inr x"
  shows "\<exists>best. search_loop train ps (calls, b, bp) = (calls @ ps, Inr best)"
  using assms
proof (induction ps arbitrary: calls b bp)
  case Nil
  then show ?case by simp
next
  case (Cons p ps)
  from Cons.prems obtain x where x: "train p = Inr x"
    by auto
  from Cons.prems have rest: "\<forall>q \<in> set ps. \<exists>x. train q = Inr x"
    by simp
  show ?case
    using x Cons.IH [OF rest, of "calls @ [p]" x "Some p"]
      Cons.IH [OF rest, of "calls @ [p]" b bp]
    by simp
qed

lemma search_loop_first_failure:
  assumes "i < length ps" and "train (ps ! i) = Inl e"
    and "\<forall>j<i. \<exists>x. train (ps ! j) = Inr x"
  shows "search_loop train ps (calls, b, bp) = (calls @ take (Suc i) ps, Inl e)"
  using assms
proof (induction ps arbitrary: i calls b bp)
  case Nil
  then show ?case by simp
next
  case (Cons p ps)
  show ?case
  proof (cases i)
    case 0
    with Cons.prems show ?thesis by simp
  next
    case (Suc k)
    with Cons.prems have k: "k < length ps" "train (ps ! k) = Inl e"
      by simp_all
    have before: "\<forall>j<k. \<exists>x. train (ps ! j) = Inr x"
    proof (intro allI impI)
      fix j assume "j < k"
      then have "Suc j < i" using Suc by simp
      with Cons.prems(3) have "\<exists>x. train ((p # ps) ! Suc j) = Inr x" by blast
      then show "\<exists>x. train (ps ! j) = Inr x" by simp
    qed
    from Cons.prems(3) Suc obtain x where x: "train p = Inr x"
      by fastforce
    show ?thesis
      using x Suc Cons.IH [OF k before, of "calls @ [p]" x "Some p"]
        Cons.IH [OF k before, of "calls @ [p]" b bp]
      by simp
  qed
qed

text \<open>
  C4. As stated (every configuration is attempted whatever fails, and a failed cell
  leaves a record) the claim does not hold: on the example grid, with a fit that fails on
  the first configuration, the run ends there with the error, the second configuration is
  never passed to the training function, and the result holds no record.
\<close>

theorem grid_search_failure_counterexample:
  "expand_grid example_grid = Inr [example_first, example_second]
   \<and> grid_search fails_on_first example_grid = ([example_first], Inl FitError)"
  using expand_example_grid
  by (simp add: grid_search_def fails_on_first_def)

text \<open>
  C4, amended. For every non-empty parameter grid the configurations are evaluated one
  at a time in enumeration order. When no fit fails, every enumerated configuration is
  attempted, in that order, and the run returns its selection: the first configuration
  that reaches the maximal F1 when that is above 0, \<open>None\<close> otherwise. The first failing
  fit ends the run: its error is the result, the configurations up to and including the
  failing one are exactly those attempted, and no later configuration is attempted.
\<close>

theorem grid_search_aborts_at_first_failure:
  assumes "param_grid \<noteq> []"
  shows "\<exists>iter_param. expand_grid param_grid = Inr iter_param
     \<and> ((\<forall>p \<in> set iter_param. train p = Inr (score p)) \<longrightarrow>
          fst (grid_search train param_grid) = iter_param
        \<and> ((\<forall>p \<in> set iter_param. score p \<le> 0)
             \<longrightarrow> snd (grid_search train param_grid) = Inr None)
        \<and> (\<forall>i<length iter_param.
              0 < score (iter_param ! i)
              \<and> (\<forall>j<length iter_param. score (iter_param ! j) \<le> score (iter_param ! i))
              \<and> (\<forall>j<i. score (iter_param ! j) < score (iter_param ! i))
              \<longrightarrow> snd (grid_search train param_grid) = Inr (Some (iter_param ! i))))
     \<and> (\<forall>i e. i < length iter_param \<and> train (iter_param ! i) = Inl e
              \<and> (\<forall>j<i. \<exists>x. train (iter_param ! j) = Inr x)
            \<longrightarrow> grid_search train param_grid = (take (Suc i) iter_param, Inl e))"
proof -
  from expand_grid_nonempty [OF assms]
  obtain iter_param where e: "expand_grid param_grid = Inr iter_param" ..
  have success: "(\<forall>p \<in> set iter_param. train p = Inr (score p)) \<longrightarrow>
          fst (grid_search train param_grid) = iter_param
        \<and> ((\<forall>p \<in> set iter_param. score p \<le> 0)
             \<longrightarrow> snd (grid_search train param_grid) = Inr None)
        \<and> (\<forall>i<length iter_param.
              0 < score (iter_param ! i)
              \<and> (\<forall>j<length iter_param. score (iter_param ! j) \<le> score (iter_param ! i))
              \<and> (\<forall>j<i. score (iter_param ! j) < score (iter_param ! i))
              \<longrightarrow> snd (grid_search train param_grid) = Inr (Some (iter_param ! i)))"
  proof (intro impI conjI allI)
    assume ok: "\<forall>p \<in> set iter_param. train p = Inr (score p)"
    then have "\<forall>p \<in> set iter_param. \<exists>x. train p = Inr x"
      by simp
    from search_loop_all_succeed [OF this, of "[]" 0 None]
    obtain best where "search_loop train iter_param ([], 0, None) = (iter_param, Inr best)"
      by auto
    with e show "fst (grid_search train param_grid) = iter_param"
      by (cases best) (simp add: grid_search_def)
  next
    assume ok: "\<forall>p \<in> set iter_param. train p = Inr (score p)"
      and "\<forall>p \<in> set iter_param. score p \<le> 0"
    with grid_search_all_scored(1) [OF e ok]
    show "snd (grid_search train param_grid) = Inr None"
      by simp
  next
    fix i
    assume ok: "\<forall>p \<in> set iter_param. train p = Inr (score p)"
      and "i < length iter_param"
      and "0 < score (iter_param ! i)
              \<and> (\<forall>j<length iter_param. score (iter_param ! j) \<le> score (iter_param ! i))
              \<and> (\<forall>j<i. score (iter_param ! j) < score (iter_param ! i))"
    with grid_search_all_scored(2) [OF e ok]
    show "snd (grid_search train param_grid) = Inr (Some (iter_param ! i))"
      by simp
  qed
  have failure: "\<forall>i e. i < length iter_param \<and> train (iter_param ! i) = Inl e
              \<and> (\<forall>j<i. \<exists>x. train (iter_param ! j) = Inr x)
            \<longrightarrow> grid_search train param_grid = (take (Suc i) iter_param, Inl e)"
  proof (intro allI impI)
    fix i err
    assume h: "i < length iter_param \<and> train (iter_param ! i) = Inl err
              \<and> (\<forall>j<i. \<exists>x. train (iter_param ! j) = Inr x)"
    then have "search_loop train iter_param ([], 0, None)
        = ([] @ take (Suc i) iter_param, Inl err)"
      by (intro search_loop_first_failure) auto
    with e show "grid_search train param_grid = (take (Suc i) iter_param, Inl err)"
      by (simp add: grid_search_def)
  qed
  from e success failure show ?thesis
    by blast
qed

theorem grid_search_aborts_at_first_failure_witness:
  "example_grid \<noteq> []
   \<and> grid_search second_is_better example_grid
       = ([example_first, example_second], Inr (Some example_second))
   \<and> fails_on_first example_first = Inl FitError
   \<and> grid_search fails_on_first example_grid = ([example_first], Inl FitError)"
proof -
  define score :: "config \<Rightarrow> real" where "score = (\<lambda>p. if p = example_second then 3 / 4 else 1 / 4)"
  have sc: "score example_first = 1 / 4" "score example_second = 3 / 4"
    using example_configs_differ by (simp_all add: score_def)
  have ok: "\<forall>p \<in> set [example_first, example_second]. second_is_better p = Inr (score p)"
    by (simp add: second_is_better_def score_def)
  from grid_search_aborts_at_first_failure [OF example_grid_nonempty, of second_is_better score]
    expand_example_grid ok
  have calls: "fst (grid_search second_is_better example_grid) = [example_first, example_second]"
    and sel: "\<forall>i<length [example_first, example_second].
              0 < score ([example_first, example_second] ! i)
              \<and> (\<forall>j<length [example_first, example_second].
                    score ([example_first, example_second] ! j) \<le> score ([example_first, example_second] ! i))
              \<and> (\<forall>j<i. score ([example_first, example_second] ! j) < score ([example_first, example_second] ! i))
              \<longrightarrow> snd (grid_search second_is_better example_grid)
                   = Inr (Some ([example_first, example_second] ! i))"
    by auto
  from sel [rule_format, of 1] sc
  have "snd (grid_search second_is_better example_grid) = Inr (Some example_second)"
    by (simp add: nth_Cons' less_Suc_eq)
  with calls have good: "grid_search second_is_better example_grid
       = ([example_first, example_second], Inr (Some example_second))"
    by (simp add: prod_eq_iff)
  have bad: "fails_on_first example_first = Inl FitError"
    by (simp add: fails_on_first_def)
  from grid_search_aborts_at_first_failure [OF example_grid_nonempty, of fails_on_first score]
    expand_example_grid
  have "\<forall>i e. i < length [example_first, example_second]
              \<and> fails_on_first ([example_first, example_second] ! i) = Inl e
              \<and> (\<forall>j<i. \<exists>x. fails_on_first ([example_first, example_second] ! j) = Inr x)
            \<longrightarrow> grid_search fails_on_first example_grid
                 = (take (Suc i) [example_first, example_second], Inl e)"
    by auto
  from this [rule_format, of 0 FitError] bad
  have abort: "grid_search fails_on_first example_grid = ([example_first], Inl FitError)"
    by simp
  from example_grid_nonempty good bad abort show ?thesis
    by simp
qed

section \<open>The enumeration of the grid\<close>

lemma update_fresh_key:
  "k \<notin> fst ` set d \<Longrightarrow> AList.update k v d = d @ [(k, v)]"
  by (induction d) auto

lemma foldl_update_distinct:
  "distinct (map fst (d @ ps)) \<Longrightarrow> foldl (\<lambda>d (k, v). AList.update k v d) d ps = d @ ps"
proof (induction ps arbitrary: d)
  case Nil
  then show ?case by simp
next
  case (Cons kv ps)
  obtain k v where kv: "kv = (k, v)" by (cases kv)
  from Cons.prems kv have fresh: "k \<notin> fst ` set d"
    by auto
  from Cons.prems kv have "distinct (map fst ((d @ [(k, v)]) @ ps))"
    by simp
  from Cons.IH [OF this] show ?case
    using kv fresh by (simp add: update_fresh_key)
qed

lemma dict_zip_distinct:
  assumes "distinct keys"
  shows "dict (zip keys combo) = zip keys combo"
proof -
  from assms have "distinct (map fst ([] @ zip keys combo))"
    by (simp add: map_fst_zip_take)
  from foldl_update_distinct [OF this] show ?thesis
    by (simp add: dict_def)
qed

lemma length_itertools_product:
  "length (itertools_product vss) = prod_list (map length vss)"
proof (induction vss)
  case Nil
  then show ?case by simp
next
  case (Cons vs vss)
  have "length (concat (map (\<lambda>v. map ((#) v) (itertools_product vss)) vs))
      = length vs * length (itertools_product vss)"
    by (induction vs) simp_all
  with Cons show ?case by simp
qed

lemma length_in_itertools_product:
  "combo \<in> set (itertools_product vss) \<Longrightarrow> length combo = length vss"
  by (induction vss arbitrary: combo) auto

lemma set_itertools_product:
  "set (itertools_product vss) = {combo. list_all2 (\<lambda>v vs. v \<in> set vs) combo vss}"
proof (induction vss)
  case Nil
  then show ?case by auto
next
  case (Cons vs vss)
  show ?case
  proof (intro set_eqI iffI)
    fix combo
    assume "combo \<in> set (itertools_product (vs # vss))"
    then obtain v rest where "combo = v # rest" "v \<in> set vs" "rest \<in> set (itertools_product vss)"
      by auto
    with Cons show "combo \<in> {combo. list_all2 (\<lambda>v vs. v \<in> set vs) combo (vs # vss)}"
      by simp
  next
    fix combo
    assume "combo \<in> {combo. list_all2 (\<lambda>v vs. v \<in> set vs) combo (vs # vss)}"
    then obtain v rest where "combo = v # rest" "v \<in> set vs"
        "list_all2 (\<lambda>v vs. v \<in> set vs) rest vss"
      by (auto simp: list_all2_Cons2)
    with Cons show "combo \<in> set (itertools_product (vs # vss))"
      by auto
  qed
qed

lemma nth_concat_blocks:
  assumes "\<forall>b \<in> set blocks. length b = m" and "k < length blocks * m"
  shows "concat blocks ! k = (blocks ! (k div m)) ! (k mod m)"
  using assms
proof (induction blocks arbitrary: k)
  case Nil
  then show ?case by simp
next
  case (Cons b blocks)
  have m: "0 < m" using Cons.prems(2) by (cases m) auto
  show ?case
  proof (cases "k < m")
    case True
    with Cons.prems show ?thesis by (simp add: nth_append)
  next
    case False
    then have km: "m \<le> k" by simp
    with Cons.prems have "k - m < length blocks * m" by auto
    with Cons have ih: "concat blocks ! (k - m) = (blocks ! ((k - m) div m)) ! ((k - m) mod m)"
      by simp
    from km m have d: "k div m = Suc ((k - m) div m)"
      by (simp add: le_div_geq)
    from km have r: "k mod m = (k - m) mod m"
      by (simp add: le_mod_geq)
    from Cons.prems False ih d r show ?thesis
      by (simp add: nth_append)
  qed
qed


lemma prod_list_split_at:
  assumes "i < length (ns :: nat list)"
  shows "prod_list ns = prod_list (take i ns) * ns ! i * prod_list (drop (Suc i) ns)"
proof -
  from assms have "ns = take i ns @ ns ! i # drop (Suc i) ns"
    by (rule id_take_nth_drop)
  then have "prod_list ns = prod_list (take i ns @ ns ! i # drop (Suc i) ns)"
    by simp
  then show ?thesis
    by (simp add: mult.assoc)
qed

lemma digit_of_remainder:
  assumes "0 < (d::nat)"
  shows "(k mod (a * n * d)) div d mod n = (k div d) mod n"
proof -
  have "k mod (d * (a * n)) = d * (k div d mod (a * n)) + k mod d"
    by (rule mod_mult2_eq)
  then have "(k mod (d * (a * n))) div d = k div d mod (a * n)"
    using assms by simp
  moreover have "k div d mod (a * n) mod n = k div d mod n"
    by (simp add: mod_mod_cancel)
  ultimately show ?thesis
    by (simp add: mult.commute)
qed

lemma nth_itertools_product:
  assumes "k < prod_list (map length vss)"
  shows "itertools_product vss ! k =
     map (\<lambda>i. (vss ! i) ! ((k div prod_list (map length (drop (Suc i) vss))) mod length (vss ! i)))
       [0..<length vss]"
  using assms
proof (induction vss arbitrary: k)
  case Nil
  then show ?case by simp
next
  case (Cons vs vss)
  define m where "m = prod_list (map length vss)"
  define P where "P = itertools_product vss"
  have lenP: "length P = m"
    by (simp add: P_def m_def length_itertools_product)
  from Cons.prems have k: "k < length vs * m"
    by (simp add: m_def)
  then have m: "0 < m" by (cases m) auto
  from k m have q: "k div m < length vs"
    by (simp add: less_mult_imp_div_less)
  from m have r: "k mod m < m" by simp
  have blocks: "\<forall>b \<in> set (map (\<lambda>v. map ((#) v) P) vs). length b = m"
    by (simp add: lenP)
  have "itertools_product (vs # vss) ! k = concat (map (\<lambda>v. map ((#) v) P) vs) ! k"
    by (simp add: P_def)
  also have "\<dots> = (map (\<lambda>v. map ((#) v) P) vs ! (k div m)) ! (k mod m)"
    using blocks k by (intro nth_concat_blocks) simp_all
  also have "\<dots> = vs ! (k div m) # P ! (k mod m)"
    using q r lenP by simp
  finally have lhs: "itertools_product (vs # vss) ! k = vs ! (k div m) # P ! (k mod m)" .
  have ih: "P ! (k mod m) =
     map (\<lambda>i. (vss ! i) ! (((k mod m) div prod_list (map length (drop (Suc i) vss)))
                               mod length (vss ! i))) [0..<length vss]"
    unfolding P_def using r by (intro Cons.IH) (simp add: m_def)
  have digits: "map (\<lambda>i. (vss ! i) ! (((k mod m) div prod_list (map length (drop (Suc i) vss)))
                               mod length (vss ! i))) [0..<length vss]
      = map (\<lambda>i. (vss ! i) ! ((k div prod_list (map length (drop (Suc i) vss)))
                               mod length (vss ! i))) [0..<length vss]"
  proof (rule map_cong [OF refl])
    fix i assume "i \<in> set [0..<length vss]"
    then have i: "i < length (map length vss)" by simp
    define d where "d = prod_list (map length (drop (Suc i) vss))"
    define a where "a = prod_list (map length (take i vss))"
    from prod_list_split_at [OF i] i have split: "m = a * length (vss ! i) * d"
      by (simp add: m_def a_def d_def take_map drop_map)
    with m have "0 < d" by (cases d) auto
    from digit_of_remainder [OF this, of k a "length (vss ! i)"] split
    show "(vss ! i) ! (((k mod m) div prod_list (map length (drop (Suc i) vss))) mod length (vss ! i))
        = (vss ! i) ! ((k div prod_list (map length (drop (Suc i) vss))) mod length (vss ! i))"
      by (simp add: d_def)
  qed
  have rhs: "map (\<lambda>i. ((vs # vss) ! i) ! ((k div prod_list (map length (drop (Suc i) (vs # vss))))
                               mod length ((vs # vss) ! i))) [0..<length (vs # vss)]
     = vs ! ((k div m) mod length vs)
       # map (\<lambda>i. (vss ! i) ! ((k div prod_list (map length (drop (Suc i) vss)))
                               mod length (vss ! i))) [0..<length vss]"
  proof -
    have "[0..<length (vs # vss)] = 0 # map Suc [0..<length vss]"
      by (simp add: upt_conv_Cons map_Suc_upt del: upt_Suc)
    then show ?thesis
      by (simp add: m_def comp_def del: upt_Suc)
  qed
  from q have "(k div m) mod length vs = k div m" by simp
  with lhs ih digits rhs show ?case by simp
qed


lemma zip_keys_digits:
  "zip (map fst grid) (map g [0..<length grid]) = map (\<lambda>i. (fst (grid ! i), g i)) [0..<length grid]"
proof -
  have "map (\<lambda>i. fst (grid ! i)) [0..<length grid] = map fst (map ((!) grid) [0..<length grid])"
    by (simp only: map_map comp_def)
  then have "map fst grid = map (\<lambda>i. fst (grid ! i)) [0..<length grid]"
    by (simp only: map_nth)
  then have "zip (map fst grid) (map g [0..<length grid])
      = zip (map (\<lambda>i. fst (grid ! i)) [0..<length grid]) (map g [0..<length grid])"
    by simp
  also have "\<dots> = map (\<lambda>i. (fst (grid ! i), g i)) [0..<length grid]"
    by (simp add: zip_map_map zip_same_conv_map)
  finally show ?thesis .
qed

text \<open>
  C7. As stated for every mapping the claim does not hold: for the empty mapping the
  Cartesian product is the one empty configuration, but \<open>zip(*param_grid.items())\<close>
  yields nothing to unpack into \<open>keys, values\<close> and the enumeration raises
  \<open>ValueError\<close>.
\<close>

theorem expand_grid_empty_counterexample:
  "expand_grid [] = Inl ValueError"
  by (simp add: expand_grid_def zip_star_items_def)

text \<open>
  C7, amended. For every non-empty \<open>param_grid\<close> (a dictionary: its keys are distinct)
  the enumeration is exactly the Cartesian product of the value lists: there are as many
  configurations as the product of the lists' lengths, the configurations are exactly the
  assignments of one listed value to every key, each configuration lists all keys in the
  order the grid supplied them, and configuration number \<open>n\<close> gives key number \<open>i\<close>
  the value at the \<open>i\<close>-th digit of \<open>n\<close> in the mixed radix of the list lengths (the
  last key varies fastest). The enumeration is a function of the grid alone. The grid
  \<open>{"nu": [0.1, 0.5], "gamma": ["scale"]}\<close> yields exactly its two configurations.
\<close>

theorem expand_grid_enumerates_product:
  assumes "param_grid \<noteq> []" and "distinct (map fst param_grid)"
  shows "\<exists>iter_param. expand_grid param_grid = Inr iter_param
      \<and> length iter_param = prod_list (map (\<lambda>kvs. length (snd kvs)) param_grid)
      \<and> set iter_param = {zip (map fst param_grid) combo | combo.
            list_all2 (\<lambda>v kvs. v \<in> set (snd kvs)) combo param_grid}
      \<and> (\<forall>n<length iter_param. iter_param ! n =
            map (\<lambda>i. (fst (param_grid ! i),
                       snd (param_grid ! i) !
                         ((n div prod_list (map (\<lambda>kvs. length (snd kvs)) (drop (Suc i) param_grid)))
                            mod length (snd (param_grid ! i)))))
              [0..<length param_grid])"
proof -
  define keys where "keys = map fst param_grid"
  define vals where "vals = map snd param_grid"
  define iter_param where "iter_param = map (zip keys) (itertools_product vals)"
  have lens: "map length vals = map (\<lambda>kvs. length (snd kvs)) param_grid"
    by (simp add: vals_def)
  have e: "expand_grid param_grid = Inr iter_param"
    using assms
    by (simp add: expand_grid_def zip_star_items_def iter_param_def keys_def vals_def
        dict_zip_distinct)
  have l: "length iter_param = prod_list (map (\<lambda>kvs. length (snd kvs)) param_grid)"
    by (simp add: iter_param_def length_itertools_product lens)
  have s: "set iter_param = {zip (map fst param_grid) combo | combo.
            list_all2 (\<lambda>v kvs. v \<in> set (snd kvs)) combo param_grid}"
  proof -
    have "set iter_param = zip keys ` set (itertools_product vals)"
      by (simp add: iter_param_def)
    also have "set (itertools_product vals)
        = {combo. list_all2 (\<lambda>v kvs. v \<in> set (snd kvs)) combo param_grid}"
      by (simp add: set_itertools_product vals_def list_all2_map2)
    finally show ?thesis
      unfolding keys_def by blast
  qed
  have n: "\<forall>n<length iter_param. iter_param ! n =
            map (\<lambda>i. (fst (param_grid ! i),
                       snd (param_grid ! i) !
                         ((n div prod_list (map (\<lambda>kvs. length (snd kvs)) (drop (Suc i) param_grid)))
                            mod length (snd (param_grid ! i)))))
              [0..<length param_grid]"
  proof (intro allI impI)
    fix n assume "n < length iter_param"
    then have n: "n < prod_list (map length vals)"
      by (simp add: iter_param_def length_itertools_product)
    then have "n < length (itertools_product vals)"
      by (simp add: length_itertools_product)
    then have "iter_param ! n = zip keys (itertools_product vals ! n)"
      by (simp add: iter_param_def)
    also have "\<dots> = zip keys
        (map (\<lambda>i. (vals ! i) ! ((n div prod_list (map length (drop (Suc i) vals))) mod length (vals ! i)))
           [0..<length vals])"
      by (simp only: nth_itertools_product [OF n])
    also have "\<dots> = zip (map fst param_grid)
        (map (\<lambda>i. snd (param_grid ! i) !
                ((n div prod_list (map (\<lambda>kvs. length (snd kvs)) (drop (Suc i) param_grid)))
                   mod length (snd (param_grid ! i))))
           [0..<length param_grid])"
    proof -
      have "map (\<lambda>i. (vals ! i) ! ((n div prod_list (map length (drop (Suc i) vals))) mod length (vals ! i)))
           [0..<length vals]
        = map (\<lambda>i. snd (param_grid ! i) !
                ((n div prod_list (map (\<lambda>kvs. length (snd kvs)) (drop (Suc i) param_grid)))
                   mod length (snd (param_grid ! i))))
           [0..<length param_grid]"
      proof (rule map_cong)
        show "[0..<length vals] = [0..<length param_grid]"
          by (simp add: vals_def)
      next
        fix i assume "i \<in> set [0..<length param_grid]"
        then have "vals ! i = snd (param_grid ! i)"
          by (simp add: vals_def)
        moreover have "map length (drop (Suc i) vals)
            = map (\<lambda>kvs. length (snd kvs)) (drop (Suc i) param_grid)"
          by (simp add: vals_def drop_map)
        ultimately show "(vals ! i) ! ((n div prod_list (map length (drop (Suc i) vals))) mod length (vals ! i))
            = snd (param_grid ! i) !
                ((n div prod_list (map (\<lambda>kvs. length (snd kvs)) (drop (Suc i) param_grid)))
                   mod length (snd (param_grid ! i)))"
          by simp
      qed
      then show ?thesis
        by (simp only: keys_def)
    qed
    finally show "iter_param ! n =
            map (\<lambda>i. (fst (param_grid ! i),
                       snd (param_grid ! i) !
                         ((n div prod_list (map (\<lambda>kvs. length (snd kvs)) (drop (Suc i) param_grid)))
                            mod length (snd (param_grid ! i)))))
              [0..<length param_grid]"
      by (simp only: zip_keys_digits)
  qed
  show ?thesis
    by (intro exI [of _ iter_param] conjI e l s n)
qed

theorem expand_grid_enumerates_product_witness:
  "example_grid \<noteq> [] \<and> distinct (map fst example_grid)
   \<and> (\<exists>iter_param. expand_grid example_grid = Inr iter_param
        \<and> length iter_param = 2
        \<and> iter_param ! 0 = example_first \<and> iter_param ! 1 = example_second)"
proof -
  have ne: "example_grid \<noteq> []" and d: "distinct (map fst example_grid)"
    by (simp_all add: example_grid_def)
  from expand_grid_enumerates_product [OF ne d]
  obtain iter_param where e: "expand_grid example_grid = Inr iter_param"
    and l: "length iter_param = prod_list (map (\<lambda>kvs. length (snd kvs)) example_grid)"
    and n: "\<forall>n<length iter_param. iter_param ! n =
            map (\<lambda>i. (fst (example_grid ! i),
                       snd (example_grid ! i) !
                         ((n div prod_list (map (\<lambda>kvs. length (snd kvs)) (drop (Suc i) example_grid)))
                            mod length (snd (example_grid ! i)))))
              [0..<length example_grid]"
    by blast
  have two: "[0..<length example_grid] = [0, 1]"
    by (simp add: example_grid_def upt_conv_Cons)
  from l have l2: "length iter_param = 2"
    by (simp add: example_grid_def)
  from n l2 have "iter_param ! 0 = example_first"
    by (simp add: two) (simp add: example_grid_def example_first_def)
  moreover from n l2 have "iter_param ! 1 = example_second"
    by (simp add: two) (simp add: example_grid_def example_second_def)
  ultimately show ?thesis
    using ne d e l2 by blast
qed

section \<open>Cluster analysis\<close>

lemma loc_crosstab_absent_row:
  assumes "r \<notin> set clusters"
  shows "loc (crosstab clusters classes) r c = Inl KeyError"
proof -
  have "fst ` set (crosstab clusters classes) = set clusters"
    by (simp add: crosstab_def Let_def image_image)
  with assms have "map_of (crosstab clusters classes) r = None"
    by (simp add: map_of_eq_None_iff)
  then show ?thesis
    by (simp add: loc_def)
qed

lemma analyze_clusters_without_noise:
  assumes "- 1 \<notin> set cluster_labels"
  shows "analyze_clusters params label_df cluster_labels
       = (if length cluster_labels \<noteq> length label_df then Inl ValueError else Inl KeyError)"
  using loc_crosstab_absent_row [OF assms]
  by (simp add: analyze_clusters_def Let_def)

text \<open>
  C3. The claim asks that a clustering without any noise row be analysed without error,
  with a noise count and a fraud-in-noise count of 0. The code does not do so: the noise
  count \<open>(eval_df["Cluster"] == -1).sum()\<close> is 0 there, but the fraud-in-noise count is
  read by \<open>distribution.loc[-1, 1]\<close> from a table that has no row \<open>-1\<close>, and the
  analysis ends with \<open>KeyError\<close> before anything is reported. Two rows, classes 0 and
  1, both in cluster 0:
\<close>

theorem analyze_clusters_no_noise_KeyError:
  "analyze_clusters [] [0, 1] [0, 0] = Inl KeyError"
  by (simp add: analyze_clusters_def crosstab_def loc_def count_pairs_def)

text \<open>
  The same happens inside \<open>cluster_grid_search\<close>: with an estimator that finds a single
  cluster and no noise, the search ends in the analysis of its first configuration.
\<close>

lemma cluster_grid_search_without_noise:
  "cluster_grid_search one_cluster [[0], [1]] [(''min_samples'', [PInt 1, PInt 2])] [0, 1]
     = ([Initiated 2, Search 1 2], Inl KeyError)"
  by (simp add: cluster_grid_search_def expand_grid_def zip_star_items_def dict_def
      hdbscan_clustering_def one_cluster_def analyze_clusters_def crosstab_def loc_def
      count_pairs_def Let_def)

lemma analyze_clusters_success_has_noise:
  assumes "analyze_clusters params label_df cluster_labels = Inr report"
  shows "- 1 \<in> set cluster_labels"
proof (rule ccontr)
  assume "- 1 \<notin> set cluster_labels"
  from analyze_clusters_without_noise [OF this] assms show False
    by (simp split: if_splits)
qed

lemma analyze_clusters_counts_noise_as_cluster:
  assumes "analyze_clusters params label_df cluster_labels = Inr report"
  shows "report_clusters report = Suc (length (remdups (filter (\<lambda>c. c \<noteq> - 1) cluster_labels)))"
proof -
  have noise: "- 1 \<in> set cluster_labels"
    using assms by (rule analyze_clusters_success_has_noise)
  from assms have "report_clusters report = length (remdups cluster_labels)"
    by (auto simp: analyze_clusters_def Let_def split: if_splits sum.splits)
  also have "\<dots> = card (set cluster_labels)"
    by (simp add: length_remdups_card_conv)
  also have "set cluster_labels = insert (- 1) (set cluster_labels - {- 1})"
    using noise by auto
  also have "card \<dots> = Suc (card (set cluster_labels - {- 1}))"
    by (subst card_insert_disjoint) simp_all
  also have "set cluster_labels - {- 1} = set (filter (\<lambda>c. c \<noteq> - 1) cluster_labels)"
    by auto
  finally show ?thesis
    by (simp add: length_remdups_card_conv)
qed

text \<open>
  C8. The claim asks for the number of distinct cluster ids other than the noise id. The
  code reports \<open>nunique()\<close> of the \<open>Cluster\<close> column, which counts the noise id \<open>-1\<close>
  as a cluster: with one noise row and one row in cluster 0 it reports 2 clusters where
  there is one. (By \<open>analyze_clusters_counts_noise_as_cluster\<close> every analysis that
  completes reports one more than the number of clusters.)
\<close>

theorem analyze_clusters_noise_counted:
  "analyze_clusters [] [1, 0] [- 1, 0]
     = Inr \<lparr>report_parameters = [], report_clusters = 2, report_noise_pct = 50,
            report_fraud_in_cluster = 0, report_fraud_in_noise = 1\<rparr>
   \<and> length (remdups (filter (\<lambda>c. c \<noteq> - 1) [- 1, 0 :: int])) = 1"
  by (simp add: analyze_clusters_def crosstab_def loc_def count_pairs_def round2_def rint_def)

section \<open>Cluster fitting and the caller's configuration\<close>

lemma update_unchanged_iff:
  "AList.update k v al = al \<longleftrightarrow> map_of al k = Some v"
proof
  assume "AList.update k v al = al"
  then have "map_of al k = map_of (AList.update k v al) k"
    by simp
  then show "map_of al k = Some v"
    by (simp add: update_conv')
next
  assume "map_of al k = Some v"
  then show "AList.update k v al = al"
    by (rule update_triv)
qed

text \<open>
  C9. As stated the claim does not hold in its second half: the override is written into
  the caller's dictionary. Called with the empty dictionary (as the notebook does), the
  function leaves the caller with \<open>{"n_jobs": -1}\<close>.
\<close>

theorem hdbscan_clustering_mutates_params_counterexample:
  "hdbscan_clustering one_cluster [[0]] [] True
     = ([(''n_jobs'', PInt (- 1))], [Trained [(''n_jobs'', PInt (- 1))]], Inr [0])
   \<and> fst (hdbscan_clustering one_cluster [[0]] [] True) \<noteq> []"
  by (simp add: hdbscan_clustering_def one_cluster_def Let_def)

text \<open>
  C9, amended. For every caller-supplied configuration the estimator is built from that
  configuration with \<open>n_jobs\<close> set to \<open>-1\<close>, whatever the configuration held, and the
  override is made in the caller's mapping itself: after the call the mapping is the
  supplied one with \<open>n_jobs\<close> set to \<open>-1\<close> and every other key as it was. It equals the
  supplied mapping exactly when that already mapped \<open>n_jobs\<close> to \<open>-1\<close>.
\<close>

theorem hdbscan_clustering_sets_n_jobs_in_place:
  "fst (hdbscan_clustering HDBSCAN X params logging) = AList.update ''n_jobs'' (PInt (- 1)) params
   \<and> map_of (fst (hdbscan_clustering HDBSCAN X params logging))
       = (map_of params)(''n_jobs'' \<mapsto> PInt (- 1))
   \<and> snd (snd (hdbscan_clustering HDBSCAN X params logging))
       = HDBSCAN (AList.update ''n_jobs'' (PInt (- 1)) params) X
   \<and> (fst (hdbscan_clustering HDBSCAN X params logging) = params
        \<longleftrightarrow> map_of params ''n_jobs'' = Some (PInt (- 1)))"
proof -
  have p: "fst (hdbscan_clustering HDBSCAN X params logging)
      = AList.update ''n_jobs'' (PInt (- 1)) params"
    by (simp add: hdbscan_clustering_def Let_def split: sum.splits)
  have r: "snd (snd (hdbscan_clustering HDBSCAN X params logging))
      = HDBSCAN (AList.update ''n_jobs'' (PInt (- 1)) params) X"
    by (simp add: hdbscan_clustering_def Let_def split: sum.splits)
  show ?thesis
    unfolding p r by (simp add: update_conv' update_unchanged_iff)
qed

section \<open>Zero denominators in the boundary-mode evaluation\<close>

lemma labels_zero_one:
  assumes "set ys = {0, 1 :: int}"
  shows "sort (remdups ys) = [0, 1]"
proof (rule sorted_distinct_set_unique)
  show "sorted (sort (remdups ys))" by simp
  show "distinct (sort (remdups ys))" by simp
  show "sorted [0, 1 :: int]" by simp
  show "distinct [0, 1 :: int]" by simp
  show "set (sort (remdups ys)) = set [0, 1 :: int]"
    using assms by auto
qed

lemma count_other_label:
  assumes "set (y_true @ y_pred) = {0, 1 :: int}"
  shows "length (filter (\<lambda>(a, b). a \<noteq> 1 \<and> b = 1) (zip y_true y_pred)) = count_pairs y_true y_pred 0 1"
    and "length (filter (\<lambda>(a, b). a = 1 \<and> b \<noteq> 1) (zip y_true y_pred)) = count_pairs y_true y_pred 1 0"
proof -
  have in01: "\<And>a b. (a, b) \<in> set (zip y_true y_pred) \<Longrightarrow> (a = 0 \<or> a = 1) \<and> (b = 0 \<or> b = 1)"
  proof -
    fix a b assume "(a, b) \<in> set (zip y_true y_pred)"
    then have "a \<in> set y_true" "b \<in> set y_pred"
      by (auto dest: set_zip_leftD set_zip_rightD)
    with assms show "(a = 0 \<or> a = 1) \<and> (b = 0 \<or> b = 1)"
      by auto
  qed
  have "filter (\<lambda>(a, b). a \<noteq> 1 \<and> b = 1) (zip y_true y_pred)
      = filter (\<lambda>(a, b). a = 0 \<and> b = 1) (zip y_true y_pred)"
    by (rule filter_cong) (use in01 in auto)
  then show "length (filter (\<lambda>(a, b). a \<noteq> 1 \<and> b = 1) (zip y_true y_pred)) = count_pairs y_true y_pred 0 1"
    by (simp add: count_pairs_def)
  have "filter (\<lambda>(a, b). a = 1 \<and> b \<noteq> 1) (zip y_true y_pred)
      = filter (\<lambda>(a, b). a = 1 \<and> b = 0) (zip y_true y_pred)"
    by (rule filter_cong) (use in01 in auto)
  then show "length (filter (\<lambda>(a, b). a = 1 \<and> b \<noteq> 1) (zip y_true y_pred)) = count_pairs y_true y_pred 1 0"
    by (simp add: count_pairs_def)
qed

lemma binary_counts_zero_one:
  assumes "length y_true = length y_pred" and "set (y_true @ y_pred) = {0, 1}"
  shows "binary_counts y_true y_pred
       = Inr (count_pairs y_true y_pred 1 1, count_pairs y_true y_pred 0 1,
              count_pairs y_true y_pred 1 0)"
proof -
  have one: "1 \<in> set (remdups (y_true @ y_pred))"
    using assms(2) by simp
  have "length (remdups (y_true @ y_pred)) = card {0, 1 :: int}"
    by (simp only: length_remdups_card_conv assms(2))
  then have two: "length (remdups (y_true @ y_pred)) = 2"
    by simp
  from one two show ?thesis
    using assms(1) count_other_label [OF assms(2)]
    by (simp add: binary_counts_def Let_def count_pairs_def)
qed

lemma confusion_matrix_zero_one:
  assumes "length y_true = length y_pred" and "set (y_true @ y_pred) = {0, 1}"
  shows "confusion_matrix y_true y_pred
       = Inr [[count_pairs y_true y_pred 0 0, count_pairs y_true y_pred 0 1],
              [count_pairs y_true y_pred 1 0, count_pairs y_true y_pred 1 1]]"
  using assms(1) labels_zero_one [OF assms(2)]
  by (simp add: confusion_matrix_def Let_def)

text \<open>
  C2. As stated the claim does not hold for precision, recall and F1: with ground truth
  \<open>[1, 0]\<close> and no positive predicted, \<open>TP + FP = 0\<close>, and the precision and the F1
  score are reported as the number 0, not as an undefined value.
\<close>

theorem evaluate_coerces_to_zero_counterexample:
  "evaluate [1, 0] [0, 0]
     = Inr \<lparr>true_positive_rate = Finite 0, false_positive_rate = Finite 0,
            true_negative_rate = Finite 100, false_negative_rate = Finite 100,
            precision = 0, recall = 0, f1 = 0\<rparr>
   \<and> count_pairs [1, 0] [0, 0] 1 1 + count_pairs [1, 0] [0, 0] 0 1 = 0"
  by (simp add: evaluate_def confusion_matrix_def binary_counts_def count_pairs_def
      precision_score_def recall_score_def f1_score_def zero_division_def np_true_divide_def Let_def)

text \<open>
  C2, amended. For every ground truth and prediction of equal length over the labels 0
  and 1 in which both labels occur (so that the confusion matrix has its four cells), the
  evaluation completes without raising whatever denominators are zero. A percentage rate
  (true/false positive/negative rate) whose denominator is zero is the floating-point
  \<open>NaN\<close>; a precision or recall whose denominator is zero, and an F1 score whose
  precision and recall are both zero, is the number 0, as the scoring functions' default
  for a zero division returns it.
\<close>

theorem evaluate_zero_denominators:
  assumes "length y_test = length predictions" and "set (y_test @ predictions) = {0, 1}"
  shows "\<exists>report. evaluate y_test predictions = Inr report
      \<and> true_positive_rate report =
          (if count_pairs y_test predictions 1 1 + count_pairs y_test predictions 1 0 = 0 then NaN
           else Finite (real (count_pairs y_test predictions 1 1)
                  / real (count_pairs y_test predictions 1 1 + count_pairs y_test predictions 1 0) * 100))
      \<and> false_positive_rate report =
          (if count_pairs y_test predictions 0 1 + count_pairs y_test predictions 0 0 = 0 then NaN
           else Finite (real (count_pairs y_test predictions 0 1)
                  / real (count_pairs y_test predictions 0 1 + count_pairs y_test predictions 0 0) * 100))
      \<and> true_negative_rate report =
          (if count_pairs y_test predictions 0 0 + count_pairs y_test predictions 0 1 = 0 then NaN
           else Finite (real (count_pairs y_test predictions 0 0)
                  / real (count_pairs y_test predictions 0 0 + count_pairs y_test predictions 0 1) * 100))
      \<and> false_negative_rate report =
          (if count_pairs y_test predictions 1 0 + count_pairs y_test predictions 1 1 = 0 then NaN
           else Finite (real (count_pairs y_test predictions 1 0)
                  / real (count_pairs y_test predictions 1 0 + count_pairs y_test predictions 1 1) * 100))
      \<and> precision report =
          (if count_pairs y_test predictions 1 1 + count_pairs y_test predictions 0 1 = 0 then 0
           else real (count_pairs y_test predictions 1 1)
                  / real (count_pairs y_test predictions 1 1 + count_pairs y_test predictions 0 1))
      \<and> recall report =
          (if count_pairs y_test predictions 1 1 + count_pairs y_test predictions 1 0 = 0 then 0
           else real (count_pairs y_test predictions 1 1)
                  / real (count_pairs y_test predictions 1 1 + count_pairs y_test predictions 1 0))
      \<and> f1 report =
          (if precision report + recall report = 0 then 0
           else 2 * precision report * recall report / (precision report + recall report))"
  by (simp add: evaluate_def confusion_matrix_zero_one [OF assms] binary_counts_zero_one [OF assms]
      precision_score_def recall_score_def f1_score_def zero_division_def np_true_divide_def Let_def)

theorem evaluate_zero_denominators_witness:
  "length [0, 0 :: int] = length [0, 1 :: int] \<and> set ([0, 0] @ [0, 1 :: int]) = {0, 1}
   \<and> count_pairs [0, 0] [0, 1] 1 1 + count_pairs [0, 0] [0, 1] 1 0 = 0
   \<and> (\<exists>report. evaluate [0, 0] [0, 1] = Inr report
        \<and> true_positive_rate report = NaN \<and> false_negative_rate report = NaN
        \<and> false_positive_rate report = Finite 50 \<and> true_negative_rate report = Finite 50
        \<and> precision report = 0 \<and> recall report = 0 \<and> f1 report = 0)"
proof -
  have len: "length [0, 0 :: int] = length [0, 1 :: int]"
    by simp
  have labels: "set ([0, 0] @ [0, 1 :: int]) = {0, 1}"
    by auto
  have counts: "count_pairs [0, 0] [0, 1] 1 1 = 0" "count_pairs [0, 0] [0, 1] 1 0 = 0"
      "count_pairs [0, 0] [0, 1] 0 1 = 1" "count_pairs [0, 0] [0, 1] 0 0 = 1"
    by (simp_all add: count_pairs_def)
  from evaluate_zero_denominators [OF len labels]
  obtain report where "evaluate [0, 0] [0, 1] = Inr report"
      "true_positive_rate report = NaN" "false_negative_rate report = NaN"
      "false_positive_rate report = Finite 50" "true_negative_rate report = Finite 50"
      "precision report = 0" "recall report = 0" "f1 report = 0"
    unfolding counts by auto
  with len labels counts show ?thesis
    by auto
qed

section \<open>Scaling in the boundary-model evaluation\<close>

lemma scale_inputs_Inr:
  assumes "scale_inputs X_train X_test = Inr (sc, X_train_scaled, X_test_scaled)"
  shows "scaler_fit X_train = Inr sc"
    and "X_train_scaled = map (scale_row sc) X_train"
    and "X_test_scaled = map (scale_row sc) X_test"
  using assms
  by (auto simp: scale_inputs_def scaler_fit_transform_def scaler_transform_def
      split: sum.splits if_splits)

text \<open>
  C6. Whenever the scaling block of \<open>train_oneclass_svm\<close> completes, the scaler it used
  is the one fitted on \<open>X_train\<close>: its means and deviations are those of the columns of
  \<open>X_train\<close>, every row of \<open>X_test\<close> is transformed with exactly these parameters, the
  parameters and the scaled training rows are the same whatever test set is supplied, and
  the estimator receives the training and test rows so scaled.
\<close>

theorem scaling_parameters_fit_on_train_only:
  assumes "scale_inputs X_train X_test = Inr (sc, X_train_scaled, X_test_scaled)"
  shows "scaler_fit X_train = Inr sc
     \<and> fitted_mean sc = map (\<lambda>j. mean (column X_train j)) [0..<length (hd X_train)]
     \<and> fitted_scale sc = map (\<lambda>j. if variance (column X_train j) = 0 then 1
                                    else sqrt (variance (column X_train j)))
                             [0..<length (hd X_train)]
     \<and> X_test_scaled = map (scale_row sc) X_test
     \<and> (\<forall>X_test' result. scale_inputs X_train X_test' = Inr result
            \<longrightarrow> fst result = sc \<and> fst (snd result) = X_train_scaled)
     \<and> train_oneclass_svm OneClassSVM y_test X_train X_test params =
          (case OneClassSVM params X_train_scaled X_test_scaled of
             Inl e \<Rightarrow> Inl e
           | Inr raw \<Rightarrow> evaluate y_test (map (\<lambda>v. if v = - 1 then 1 else 0) raw))"
proof (intro conjI allI impI)
  show fit: "scaler_fit X_train = Inr sc"
    using assms by (rule scale_inputs_Inr)
  from fit show "fitted_mean sc = map (\<lambda>j. mean (column X_train j)) [0..<length (hd X_train)]"
    by (auto simp: scaler_fit_def Let_def split: if_splits)
  from fit show "fitted_scale sc = map (\<lambda>j. if variance (column X_train j) = 0 then 1
                                    else sqrt (variance (column X_train j)))
                             [0..<length (hd X_train)]"
    by (auto simp: scaler_fit_def Let_def split: if_splits)
  show "X_test_scaled = map (scale_row sc) X_test"
    using assms by (rule scale_inputs_Inr)
  show "train_oneclass_svm OneClassSVM y_test X_train X_test params =
          (case OneClassSVM params X_train_scaled X_test_scaled of
             Inl e \<Rightarrow> Inl e
           | Inr raw \<Rightarrow> evaluate y_test (map (\<lambda>v. if v = - 1 then 1 else 0) raw))"
    using assms by (simp add: train_oneclass_svm_def Let_def split: sum.splits)
next
  fix X_test' result
  assume "scale_inputs X_train X_test' = Inr result"
  then have other: "scale_inputs X_train X_test' = Inr (fst result, fst (snd result), snd (snd result))"
    by simp
  from scale_inputs_Inr(1) [OF other] scale_inputs_Inr(1) [OF assms]
  have same: "fst result = sc" by simp
  from scale_inputs_Inr(2) [OF other] scale_inputs_Inr(2) [OF assms] same
  have "fst (snd result) = X_train_scaled" by simp
  with same show "fst result = sc" and "fst (snd result) = X_train_scaled"
    by simp_all
qed

lemma example_scaling:
  "scale_inputs [[1], [3]] [[5]]
     = Inr (\<lparr>fitted_mean = [2], fitted_scale = [1]\<rparr>, [[- 1], [1]], [[3]])"
  by (simp add: scale_inputs_def scaler_fit_transform_def scaler_transform_def scaler_fit_def
      scale_row_def column_def mean_def variance_def Let_def)

theorem scaling_parameters_fit_on_train_only_witness:
  "scale_inputs [[1], [3]] [[5]]
     = Inr (\<lparr>fitted_mean = [2], fitted_scale = [1]\<rparr>, [[- 1], [1]], [[3]])
   \<and> scaler_fit [[1], [3]] = Inr \<lparr>fitted_mean = [2], fitted_scale = [1]\<rparr>
   \<and> [[3]] = map (scale_row \<lparr>fitted_mean = [2], fitted_scale = [1]\<rparr>) [[5]]
   \<and> scale_inputs [[1], [3]] [[7]]
     = Inr (\<lparr>fitted_mean = [2], fitted_scale = [1]\<rparr>, [[- 1], [1]], [[5]])"
proof -
  have other: "scale_inputs [[1], [3]] [[7]]
     = Inr (\<lparr>fitted_mean = [2], fitted_scale = [1]\<rparr>, [[- 1], [1]], [[5]])"
    by (simp add: scale_inputs_def scaler_fit_transform_def scaler_transform_def scaler_fit_def
        scale_row_def column_def mean_def variance_def Let_def)
  note fit = scaling_parameters_fit_on_train_only [OF example_scaling]
  from fit have "scaler_fit [[1], [3]] = Inr \<lparr>fitted_mean = [2], fitted_scale = [1]\<rparr>"
    and "[[3]] = map (scale_row \<lparr>fitted_mean = [2], fitted_scale = [1]\<rparr>) [[5]]"
    by blast+
  moreover from fit other
  have "fst (\<lparr>fitted_mean = [2], fitted_scale = [1]\<rparr>, [[- 1 :: real], [1]], [[5 :: real]])
      = \<lparr>fitted_mean = [2], fitted_scale = [1]\<rparr>"
    by blast
  ultimately show ?thesis
    using example_scaling other by blast
qed

section \<open>The one-class train/test split\<close>

lemma mask_select_labels:
  assumes "length X = length y"
  shows "mask_select y y c = map snd (filter (\<lambda>(x, l). l = c) (zip X y))"
  using assms
  by (induction X y rule: list_induct2) (simp_all add: mask_select_def)

lemma zip_nth_selection:
  assumes "\<forall>i \<in> set inds. i < length ps"
  shows "zip (map ((!) (map fst ps)) inds) (map ((!) (map snd ps)) inds) = map ((!) ps) inds"
  using assms by (induction inds) simp_all

lemma mset_nth_permutation:
  assumes "mset p = mset [0..<length ps]"
  shows "mset (map ((!) ps) p) = mset ps"
proof -
  have "mset (map ((!) ps) p) = image_mset ((!) ps) (mset p)"
    by simp
  also have "\<dots> = image_mset ((!) ps) (mset [0..<length ps])"
    by (simp only: assms)
  also have "\<dots> = mset (map ((!) ps) [0..<length ps])"
    by simp
  finally show ?thesis
    by (simp only: map_nth)
qed

lemma train_test_split_pairs:
  assumes perm: "mset (permutation (length ps)) = mset [0..<length ps]"
    and split: "train_test_split permutation (map fst ps) (map snd ps) = Inr (a_train, a_test, b_train, b_test)"
  shows "mset (zip a_train b_train) + mset (zip a_test b_test) = mset ps"
    and "length a_train = length b_train" and "length a_test = length b_test"
proof -
  define n where "n = length ps"
  define n_test where "n_test = (n + 4) div 5"
  define n_train where "n_train = n - n_test"
  define p where "p = permutation n"
  define ind_test where "ind_test = take n_test p"
  define ind_train where "ind_train = take n_train (drop n_test p)"
  have res: "a_train = map ((!) (map fst ps)) ind_train" "a_test = map ((!) (map fst ps)) ind_test"
      "b_train = map ((!) (map snd ps)) ind_train" "b_test = map ((!) (map snd ps)) ind_test"
    using split
    by (auto simp: train_test_split_def Let_def n_def n_test_def n_train_def p_def
        ind_test_def ind_train_def split: if_splits)
  from perm have mp: "mset p = mset [0..<length ps]"
    by (simp add: p_def n_def)
  then have lenp: "length p = n"
    using mset_eq_length [OF mp] by (simp add: n_def)
  from mp have inp: "\<forall>i \<in> set p. i < length ps"
    using mset_eq_setD [OF mp] by auto
  have "drop n_train (drop n_test p) = []"
    using lenp by (simp add: n_train_def)
  then have whole: "ind_test @ ind_train = p"
    unfolding ind_test_def ind_train_def
    by (metis append_take_drop_id append_Nil2)
  from inp whole have it: "\<forall>i \<in> set ind_test. i < length ps" and ir: "\<forall>i \<in> set ind_train. i < length ps"
    by auto
  have ztr: "zip a_train b_train = map ((!) ps) ind_train"
    unfolding res by (rule zip_nth_selection [OF ir])
  have zte: "zip a_test b_test = map ((!) ps) ind_test"
    unfolding res by (rule zip_nth_selection [OF it])
  have "mset (zip a_train b_train) + mset (zip a_test b_test)
      = mset (map ((!) ps) (ind_test @ ind_train))"
    by (simp add: ztr zte)
  also have "\<dots> = mset ps"
    unfolding whole by (rule mset_nth_permutation [OF mp])
  finally show "mset (zip a_train b_train) + mset (zip a_test b_test) = mset ps" .
  show "length a_train = length b_train" and "length a_test = length b_test"
    by (simp_all add: res)
qed

text \<open>
  With \<open>normal_class = 0\<close> and labels 0 and 1 the hard-coded selections are the right
  ones: whatever permutation the generator draws, the training pairs are normal pairs of
  the input, every anomalous pair is in the test set, and training and test pairs together
  are the input pairs, each exactly once.
\<close>

lemma ocsvm_split_partition_for_label_zero:
  assumes len: "length X = length y" and labels: "set y \<subseteq> {0, 1}"
    and perm: "mset (permutation (length (mask_select X y 0)))
               = mset [0..<length (mask_select X y 0)]"
    and split: "ocsvm_train_test_split permutation X y 0 = Inr (X_train, X_test, y_train, y_test)"
  shows "mset (zip X_train y_train) \<subseteq># mset (filter (\<lambda>(x, l). l = 0) (zip X y))"
    and "mset (filter (\<lambda>(x, l). l = 1) (zip X y)) \<subseteq># mset (zip X_test y_test)"
    and "mset (zip X_train y_train) + mset (zip X_test y_test) = mset (zip X y)"
proof -
  define normal where "normal = filter (\<lambda>(x, l). l = 0) (zip X y)"
  define fraud where "fraud = filter (\<lambda>(x, l). l = 1) (zip X y)"
  have sel: "mask_select X y 0 = map fst normal" "mask_select y y 0 = map snd normal"
      "mask_select X y 1 = map fst fraud" "mask_select y y 1 = map snd fraud"
    using mask_select_labels [OF len]
    by (simp_all add: normal_def fraud_def mask_select_def)
  from split len obtain X_test_normal y_test_normal where
    tts: "train_test_split permutation (map fst normal) (map snd normal)
            = Inr (X_train, X_test_normal, y_train, y_test_normal)"
    and xt: "X_test = map fst fraud @ X_test_normal"
    and yt: "y_test = map snd fraud @ y_test_normal"
    by (auto simp: ocsvm_train_test_split_def Let_def sel split: sum.splits)
  from perm have perm': "mset (permutation (length normal)) = mset [0..<length normal]"
    by (simp add: sel)
  note parts = train_test_split_pairs [OF perm' tts]
  have zt: "zip X_test y_test = fraud @ zip X_test_normal y_test_normal"
    by (simp add: xt yt zip_map_fst_snd)
  have "\<And>x l. (x, l) \<in> set (zip X y) \<Longrightarrow> l = 0 \<or> l = 1"
    using labels by (auto dest: set_zip_rightD)
  then have "filter (\<lambda>(x, l). \<not> l = 0) (zip X y) = fraud"
    unfolding fraud_def by (intro filter_cong) auto
  then have all: "mset normal + mset fraud = mset (zip X y)"
    unfolding normal_def
    by (metis (mono_tags, lifting) case_prod_beta' filter_cong mset_filter multiset_partition)
  from parts(1) show "mset (zip X_train y_train) \<subseteq># mset (filter (\<lambda>(x, l). l = 0) (zip X y))"
    unfolding normal_def [symmetric] by (metis mset_subset_eq_add_left)
  show "mset (filter (\<lambda>(x, l). l = 1) (zip X y)) \<subseteq># mset (zip X_test y_test)"
    unfolding fraud_def [symmetric] zt by simp
  from parts(1) all show "mset (zip X_train y_train) + mset (zip X_test y_test) = mset (zip X y)"
    by (simp add: zt ac_simps)
qed

text \<open>
  C1. The claim asks, for either of the two labels as \<open>normal_label\<close>, that the training
  rows all carry that label and that every row of the other label is in the test set. The
  code selects the training candidates with \<open>X[y == 0]\<close> and the anomalous rows with
  \<open>X[y == 1]\<close> whatever \<open>normal_class\<close> is, and uses \<open>normal_class\<close> only for the labels
  \<open>y[y == normal_class]\<close> it pairs with the candidates. With rows 0..3 labelled
  \<open>[0, 0, 1, 1]\<close> and \<open>normal_class = 1\<close>, the training set is row 1, whose label is 0,
  row 1 (label 0, not normal) is missing from the test set, and the test set holds rows
  2 and 3, which are normal; row 0 is returned with the label 1. With labels
  \<open>[0, 1, 1]\<close> the candidates and their labels differ in number and the split raises.
\<close>

theorem ocsvm_split_ignores_normal_class:
  "ocsvm_train_test_split identity_permutation [0, 1, 2, 3 :: nat] [0, 0, 1, 1] 1
     = Inr ([1], [2, 3, 0], [1], [1, 1, 1])
   \<and> ocsvm_train_test_split identity_permutation [0, 1, 2 :: nat] [0, 1, 1] 1 = Inl ValueError"
  by (simp add: ocsvm_train_test_split_def train_test_split_def mask_select_def
      identity_permutation_def Let_def upt_conv_Cons)

text \<open>
  The other permutation of the two candidates gives the same kind of result: the training
  row is row 0, again of label 0.
\<close>

lemma ocsvm_split_other_permutation:
  "ocsvm_train_test_split reversed_permutation [0, 1, 2, 3 :: nat] [0, 0, 1, 1] 1
     = Inr ([0], [2, 3, 1], [1], [1, 1, 1])"
  by (simp add: ocsvm_train_test_split_def train_test_split_def mask_select_def
      reversed_permutation_def Let_def upt_conv_Cons)

end
